theory Spec2Isabelle
  imports Main "HOL-Library.DAList"
begin

section \<open>User Management API: the record store and its request handlers\<close>

text \<open>
  A shallow embedding of \<^verbatim>\<open>main.py\<close>. The module holds one global dictionary
  \<^verbatim>\<open>users_db\<close>, two schema classes (\<^verbatim>\<open>User\<close>, \<^verbatim>\<open>UserUpdate\<close>) and six route
  functions. The dictionary is passed explicitly: every route function takes the store and
  returns its result together with the store it leaves behind.

  Python's \<^verbatim>\<open>int\<close> is \<^typ>\<open>int\<close>. A Python \<^verbatim>\<open>str\<close> is the list of its code points,
  each a natural number, so that \<^const>\<open>length\<close> is Python's \<^verbatim>\<open>len\<close>. The string
  constants of the program text (messages, details, field names) are written as literals.
\<close>

type_synonym str = "nat list"

text \<open>The \<^verbatim>\<open>str\<close> that a literal of ASCII characters denotes.\<close>

definition str_of :: "string \<Rightarrow> str" where
  "str_of s = map of_char s"

subsection \<open>Schema classes\<close>

text \<open>
  \<^verbatim>\<open>UserUpdate\<close>: every field is \<^verbatim>\<open>Optional[str]\<close> with default \<^verbatim>\<open>None\<close>.
\<close>

record UserUpdate =
  name :: "str option"
  phone_no :: "str option"
  address :: "str option"

text \<open>
  \<^verbatim>\<open>User\<close>, and also the dictionary \<^verbatim>\<open>user.dict()\<close> kept in the store, which has
  exactly these four keys. The field \<^verbatim>\<open>id\<close> is written \<open>id'\<close>.
\<close>

record User =
  id' :: int
  name :: str
  phone_no :: str
  address :: str

text \<open>
  The \<^verbatim>\<open>Field\<close> constraints. \<open>User_errors\<close> lists the fields of a request body that
  violate their constraint, in declaration order; the body is accepted when the list is empty.
\<close>

definition valid_id :: "int \<Rightarrow> bool" where
  "valid_id i \<longleftrightarrow> i > 0"

definition valid_name :: "str \<Rightarrow> bool" where
  "valid_name s \<longleftrightarrow> 1 \<le> length s \<and> length s \<le> 100"

definition valid_phone_no :: "str \<Rightarrow> bool" where
  "valid_phone_no s \<longleftrightarrow> 10 \<le> length s \<and> length s \<le> 15"

definition valid_address :: "str \<Rightarrow> bool" where
  "valid_address s \<longleftrightarrow> 1 \<le> length s \<and> length s \<le> 200"

definition User_errors :: "User \<Rightarrow> string list" where
  "User_errors u =
     (if valid_id (id' u) then [] else [''id'']) @
     (if valid_name (User.name u) then [] else [''name'']) @
     (if valid_phone_no (User.phone_no u) then [] else [''phone_no'']) @
     (if valid_address (User.address u) then [] else [''address''])"

definition optional :: "('a \<Rightarrow> bool) \<Rightarrow> 'a option \<Rightarrow> bool" where
  "optional P x = (case x of None \<Rightarrow> True | Some v \<Rightarrow> P v)"

definition UserUpdate_errors :: "UserUpdate \<Rightarrow> string list" where
  "UserUpdate_errors u =
     (if optional valid_name (UserUpdate.name u) then [] else [''name'']) @
     (if optional valid_phone_no (UserUpdate.phone_no u) then [] else [''phone_no'']) @
     (if optional valid_address (UserUpdate.address u) then [] else [''address''])"

subsection \<open>The store\<close>

text \<open>
  \<^verbatim>\<open>users_db = {}\<close>: a Python dictionary from \<^verbatim>\<open>user.id\<close> to the user's dictionary.
  A Python dictionary has distinct keys and iterates in insertion order; it is modelled as an
  association list with distinct keys. \<^const>\<open>DAList.update\<close> overwrites the value of a
  present key in place and appends an absent key at the end, as \<^verbatim>\<open>d[k] = v\<close> does;
  \<^const>\<open>DAList.delete\<close> is \<^verbatim>\<open>del d[k]\<close>; \<^const>\<open>DAList.lookup\<close> is \<^verbatim>\<open>d[k]\<close>, with
  \<^const>\<open>None\<close> for an absent key.
\<close>

type_synonym users_db = "(int, User) alist"

definition dict_keys :: "('k, 'v) alist \<Rightarrow> 'k list" where
  "dict_keys d = map fst (DAList.impl_of d)"

definition dict_values :: "('k, 'v) alist \<Rightarrow> 'v list" where
  "dict_values d = map snd (DAList.impl_of d)"

text \<open>\<^verbatim>\<open>k in d\<close>\<close>

definition contains_key :: "('k, 'v) alist \<Rightarrow> 'k \<Rightarrow> bool" where
  "contains_key d k \<longleftrightarrow> DAList.lookup d k \<noteq> None"

subsection \<open>Strings\<close>

text \<open>
  \<^verbatim>\<open>str.lower()\<close> is a function of the Python runtime that applies the lower-case
  mappings of the runtime's Unicode tables to the whole string. It is not a character-wise
  map: a capital sigma becomes a final or a medial small sigma according to the letters around
  it, and a code point may be replaced by more than one. It is therefore not defined here but
  taken as the parameter \<open>lower\<close> of the search and of the application, and nothing is
  assumed of it.
\<close>

text \<open>\<^verbatim>\<open>s.startswith(p)\<close> and the substring test \<^verbatim>\<open>sub in s\<close>.\<close>

fun startswith :: "str \<Rightarrow> str \<Rightarrow> bool" where
  "startswith s [] = True"
| "startswith [] (p # ps) = False"
| "startswith (c # cs) (p # ps) = (c = p \<and> startswith cs ps)"

fun str_in :: "str \<Rightarrow> str \<Rightarrow> bool" where
  "str_in sub [] = (sub = [])"
| "str_in sub (c # cs) = (startswith (c # cs) sub \<or> str_in sub cs)"

subsection \<open>Results of a route function\<close>

text \<open>
  \<^verbatim>\<open>raise HTTPException(status_code=..., detail=...)\<close> is the left summand of a route
  function's result.
\<close>

datatype HTTPException = HTTPException (status_code: nat) (detail: string)

text \<open>
  The JSON bodies of the responses: \<^verbatim>\<open>{"message": m}\<close>, \<^verbatim>\<open>{"detail": d}\<close>, a user
  object, a list of user objects, the field-level detail of a request rejected by schema
  validation, and the body of a response whose content fails its \<^verbatim>\<open>response_model\<close>.
\<close>

datatype content =
    Message string
  | Detail string
  | UserObject User
  | UserList "User list"
  | ValidationErrors "string list"
  | InternalServerError

datatype response = Response (status: nat) (body: content)

subsection \<open>Route functions\<close>

text \<open>\<^verbatim>\<open>async def create_user(user: User)\<close>\<close>

definition create_user :: "User \<Rightarrow> users_db \<Rightarrow> (HTTPException + content) \<times> users_db" where
  "create_user user db =
     (if contains_key db (id' user)
      then (Inl (HTTPException 400 ''User with this ID already exists''), db)
      else (Inr (Message ''User created successfully''), DAList.update (id' user) user db))"

text \<open>\<^verbatim>\<open>async def search_users_by_name(name: str)\<close>: a comprehension over \<^verbatim>\<open>users_db.values()\<close>.\<close>

definition search_users_by_name :: "(str \<Rightarrow> str) \<Rightarrow> str \<Rightarrow> users_db \<Rightarrow> User list" where
  "search_users_by_name lower q db =
     filter (\<lambda>user. str_in (lower q) (lower (User.name user))) (dict_values db)"

text \<open>\<^verbatim>\<open>async def get_user_by_id(id: int)\<close>\<close>

definition get_user_by_id :: "int \<Rightarrow> users_db \<Rightarrow> HTTPException + User" where
  "get_user_by_id i db =
     (case DAList.lookup db i of
        None \<Rightarrow> Inl (HTTPException 404 ''User not found'')
      | Some user \<Rightarrow> Inr user)"

text \<open>
  \<^verbatim>\<open>async def update_user(id: int, user_update: UserUpdate)\<close>. The three \<^verbatim>\<open>if\<close>s assign
  to keys of the stored dictionary, which is then stored again under the same key.
\<close>

definition update_user ::
  "int \<Rightarrow> UserUpdate \<Rightarrow> users_db \<Rightarrow> (HTTPException + content) \<times> users_db" where
  "update_user i user_update db =
     (case DAList.lookup db i of
        None \<Rightarrow> (Inl (HTTPException 404 ''User not found''), db)
      | Some stored \<Rightarrow>
          (let u1 = (case UserUpdate.name user_update of
                       None \<Rightarrow> stored | Some v \<Rightarrow> stored\<lparr>name := v\<rparr>);
               u2 = (case UserUpdate.phone_no user_update of
                       None \<Rightarrow> u1 | Some v \<Rightarrow> u1\<lparr>phone_no := v\<rparr>);
               updated_user = (case UserUpdate.address user_update of
                       None \<Rightarrow> u2 | Some v \<Rightarrow> u2\<lparr>address := v\<rparr>)
           in (Inr (Message ''User updated successfully''), DAList.update i updated_user db)))"

text \<open>\<^verbatim>\<open>async def delete_user(id: int)\<close>\<close>

definition delete_user :: "int \<Rightarrow> users_db \<Rightarrow> (HTTPException + content) \<times> users_db" where
  "delete_user i db =
     (if \<not> contains_key db i
      then (Inl (HTTPException 404 ''User not found''), db)
      else (Inr (Message ''User deleted successfully''), DAList.delete i db))"

text \<open>\<^verbatim>\<open>async def root()\<close>\<close>

definition root :: content where
  "root = Message ''Welcome to the User Management API! Access the docs at /docs.''"

subsection \<open>The application\<close>

text \<open>
  A request that has been routed, with its parameters read at their declared types. The
  application validates the parameters against the declared schema (422 on a violation, before
  the route function runs), calls the route function, turns a raised \<^verbatim>\<open>HTTPException\<close> into
  a response with its status and detail, and otherwise answers with the \<^verbatim>\<open>status_code\<close> of
  the decorator. Where the decorator names \<^verbatim>\<open>response_model=User\<close> or \<^verbatim>\<open>List[User]\<close>,
  the returned content is validated against the \<^verbatim>\<open>User\<close> schema, and a content that fails
  is answered with status 500. The first argument is the runtime's \<^verbatim>\<open>str.lower\<close>.
\<close>

datatype request =
    POST_users User
  | GET_users_search str
  | GET_users_id int
  | PUT_users_id int UserUpdate
  | DELETE_users_id int
  | GET_root

definition exception_response :: "HTTPException \<Rightarrow> response" where
  "exception_response e = Response (status_code e) (Detail (detail e))"

definition respond :: "nat \<Rightarrow> (HTTPException + content) \<times> users_db \<Rightarrow> response \<times> users_db" where
  "respond code r =
     (case fst r of
        Inl e \<Rightarrow> (exception_response e, snd r)
      | Inr c \<Rightarrow> (Response code c, snd r))"

fun app :: "(str \<Rightarrow> str) \<Rightarrow> request \<Rightarrow> users_db \<Rightarrow> response \<times> users_db" where
  "app lower (POST_users user) db =
     (if User_errors user \<noteq> []
      then (Response 422 (ValidationErrors (User_errors user)), db)
      else respond 201 (create_user user db))"
| "app lower (GET_users_search q) db =
     (if length q < 1
      then (Response 422 (ValidationErrors [''name'']), db)
      else (let matching_users = search_users_by_name lower q db in
            if list_all (\<lambda>u. User_errors u = []) matching_users
            then (Response 200 (UserList matching_users), db)
            else (Response 500 InternalServerError, db)))"
| "app lower (GET_users_id i) db =
     (case get_user_by_id i db of
        Inl e \<Rightarrow> (exception_response e, db)
      | Inr user \<Rightarrow>
          if User_errors user = []
          then (Response 200 (UserObject user), db)
          else (Response 500 InternalServerError, db))"
| "app lower (PUT_users_id i user_update) db =
     (if UserUpdate_errors user_update \<noteq> []
      then (Response 422 (ValidationErrors (UserUpdate_errors user_update)), db)
      else respond 200 (update_user i user_update db))"
| "app lower (DELETE_users_id i) db = respond 200 (delete_user i db)"
| "app lower GET_root db = (Response 200 root, db)"

text \<open>The stores the program can be in: the empty dictionary, and what a request leaves.\<close>

inductive reachable :: "(str \<Rightarrow> str) \<Rightarrow> users_db \<Rightarrow> bool" for lower where
  initial: "reachable lower DAList.empty"
| request: "reachable lower db \<Longrightarrow> reachable lower (snd (app lower req db))"

text \<open>
  The store invariant: every stored record satisfies the \<^verbatim>\<open>User\<close> constraints and is
  stored under its own id.
\<close>

definition store_inv :: "users_db \<Rightarrow> bool" where
  "store_inv db \<longleftrightarrow> list_all (\<lambda>(k, u). User_errors u = [] \<and> id' u = k) (DAList.impl_of db)"

subsection \<open>Example data\<close>

text \<open>
  The record and the one-record store of the worked example, a user John Doe with id 1; the
  update that renames him, the update that supplies no field, and an update whose name is the
  empty string.
\<close>

definition john :: User where
  "john = \<lparr>id' = 1, name = str_of ''John Doe'', phone_no = str_of ''1234567890'',
            address = str_of ''123 Main St''\<rparr>"

definition jane_update :: UserUpdate where
  "jane_update = \<lparr>UserUpdate.name = Some (str_of ''Jane Doe''), phone_no = None, address = None\<rparr>"

definition empty_update :: UserUpdate where
  "empty_update = \<lparr>UserUpdate.name = None, phone_no = None, address = None\<rparr>"

definition blank_name_update :: UserUpdate where
  "blank_name_update = \<lparr>UserUpdate.name = Some [], phone_no = None, address = None\<rparr>"

definition one_user :: users_db where
  "one_user = DAList.update 1 john DAList.empty"

text \<open>
  Two Greek words in capitals, by their code points: \<open>papas\<close> is the five letters pi, alpha,
  pi, alpha, sigma (U+03A0, U+0391, U+03A0, U+0391, U+03A3), and \<open>papastavrou\<close> continues it
  with tau, alpha, upsilon, rho, omicron, upsilon. A valid record whose name is the longer
  word, and the store that holds only this record.
\<close>

definition papas :: str where
  "papas = [928, 913, 928, 913, 931]"

definition papastavrou :: str where
  "papastavrou = [928, 913, 928, 913, 931, 932, 913, 933, 929, 927, 933]"

definition greek_user :: User where
  "greek_user = \<lparr>id' = 2, name = papastavrou, phone_no = str_of ''6912345678'',
            address = str_of ''Athens''\<rparr>"

definition greek_store :: users_db where
  "greek_store = DAList.update 2 greek_user DAList.empty"

text \<open>
  A lowering function for the examples. It has the values of \<^verbatim>\<open>str.lower()\<close> on the two
  Greek words (the sigma that ends the shorter word becomes the final sigma U+03C2, the sigma
  inside the longer one the medial sigma U+03C3) and on every string of ASCII code points,
  where only A to Z change.
\<close>

definition ascii_lower :: "nat \<Rightarrow> nat" where
  "ascii_lower c = (if 65 \<le> c \<and> c \<le> 90 then c + 32 else c)"

definition lower_sample :: "str \<Rightarrow> str" where
  "lower_sample s =
     (if s = papas then [960, 945, 960, 945, 962]
      else if s = papastavrou then [960, 945, 960, 945, 963, 964, 945, 965, 961, 959, 965]
      else map ascii_lower s)"

section \<open>Properties\<close>

subsection \<open>Auxiliary facts\<close>

lemmas valid_defs = User_errors_def UserUpdate_errors_def optional_def
  valid_id_def valid_name_def valid_phone_no_def valid_address_def

lemma User_errors_Nil_iff:
  "User_errors u = [] \<longleftrightarrow>
     0 < id' u \<and> 1 \<le> length (User.name u) \<and> length (User.name u) \<le> 100 \<and>
     10 \<le> length (User.phone_no u) \<and> length (User.phone_no u) \<le> 15 \<and>
     1 \<le> length (User.address u) \<and> length (User.address u) \<le> 200"
  by (auto simp: User_errors_def valid_id_def valid_name_def valid_phone_no_def valid_address_def)

lemma startswith_iff: "startswith s p \<longleftrightarrow> (\<exists>suf. s = p @ suf)"
  by (induction s p rule: startswith.induct) auto

lemma str_in_iff: "str_in sub s \<longleftrightarrow> (\<exists>pre suf. s = pre @ sub @ suf)"
proof (induction s)
  case Nil
  show ?case by simp
next
  case (Cons c cs)
  show ?case
  proof
    assume "str_in sub (c # cs)"
    then consider suf where "c # cs = sub @ suf" | pre suf where "cs = pre @ sub @ suf"
      using Cons by (auto simp: startswith_iff)
    then show "\<exists>pre suf. c # cs = pre @ sub @ suf"
    proof cases
      case 1
      then have "c # cs = [] @ sub @ suf" by simp
      then show ?thesis by blast
    next
      case 2
      then have "c # cs = (c # pre) @ sub @ suf" by simp
      then show ?thesis by blast
    qed
  next
    assume "\<exists>pre suf. c # cs = pre @ sub @ suf"
    then obtain pre suf where eq: "c # cs = pre @ sub @ suf" by blast
    show "str_in sub (c # cs)"
    proof (cases pre)
      case Nil
      with eq have "startswith (c # cs) sub" by (simp add: startswith_iff)
      then show ?thesis by simp
    next
      case (Cons p pre')
      with eq have "cs = pre' @ sub @ suf" by simp
      then have "str_in sub cs" using Cons.IH by blast
      then show ?thesis by simp
    qed
  qed
qed

lemma contains_key_update:
  "contains_key (DAList.update k v d) k' \<longleftrightarrow> k' = k \<or> contains_key d k'"
  by (auto simp: contains_key_def DAList.lookup_update)

lemma contains_key_delete:
  "contains_key (DAList.delete k d) k' \<longleftrightarrow> k' \<noteq> k \<and> contains_key d k'"
  by (simp add: contains_key_def)

lemma update_same: "DAList.lookup d k = Some v \<Longrightarrow> DAList.update k v d = d"
  by (simp add: DAList.alist_eq_iff DAList.update.rep_eq DAList.lookup.rep_eq update_triv)

lemma list_all_update:
  "list_all P xs \<Longrightarrow> P (k, v) \<Longrightarrow> list_all P (AList.update k v xs)"
  by (induction xs) auto

lemma list_all_delete: "list_all P xs \<Longrightarrow> list_all P (AList.delete k xs)"
  by (induction xs) auto

lemma store_inv_empty: "store_inv DAList.empty"
  by (simp add: store_inv_def DAList.empty.rep_eq)

lemma store_inv_update:
  "store_inv db \<Longrightarrow> User_errors u = [] \<Longrightarrow> id' u = k \<Longrightarrow> store_inv (DAList.update k u db)"
  by (simp add: store_inv_def DAList.update.rep_eq list_all_update)

lemma store_inv_delete: "store_inv db \<Longrightarrow> store_inv (DAList.delete k db)"
  by (simp add: store_inv_def DAList.delete.rep_eq list_all_delete)

lemma store_inv_lookup:
  "store_inv db \<Longrightarrow> DAList.lookup db k = Some u \<Longrightarrow> User_errors u = [] \<and> id' u = k"
  by (auto simp: store_inv_def DAList.lookup.rep_eq list_all_iff dest: map_of_SomeD)

lemma store_inv_values:
  "store_inv db \<Longrightarrow> u \<in> set (dict_values db) \<Longrightarrow> User_errors u = []"
  by (auto simp: store_inv_def dict_values_def list_all_iff)

lemma set_dict_values: "set (dict_values d) = ran (DAList.lookup d)"
  by (simp add: dict_values_def DAList.lookup.rep_eq ran_distinct)

lemma store_inv_distinct_values: "store_inv db \<Longrightarrow> distinct (dict_values db)"
proof -
  assume inv: "store_inv db"
  have "map fst (DAList.impl_of db) = map id' (dict_values db)"
    using inv by (auto simp: store_inv_def dict_values_def list_all_iff)
  then have "distinct (map id' (dict_values db))"
    by (metis DAList.impl_of_distinct)
  then show ?thesis by (simp add: distinct_map)
qed

lemmas eval_defs = john_def one_user_def jane_update_def empty_update_def valid_defs
  contains_key_def dict_values_def dict_keys_def
  DAList.lookup.rep_eq DAList.update.rep_eq DAList.empty.rep_eq DAList.delete.rep_eq
  DAList.alist_eq_iff
  create_user_def get_user_by_id_def update_user_def delete_user_def search_users_by_name_def
  respond_def exception_response_def str_of_def lower_sample_def ascii_lower_def
  papas_def papastavrou_def

lemma app_preserves_store_inv: "store_inv db \<Longrightarrow> store_inv (snd (app lower req db))"
proof (cases req)
  case (POST_users user)
  assume "store_inv db"
  then show ?thesis using POST_users
    by (auto simp: create_user_def respond_def intro: store_inv_update)
next
  case (PUT_users_id i upd)
  assume inv: "store_inv db"
  show ?thesis
  proof (cases "UserUpdate_errors upd = []")
    case False
    then show ?thesis using inv PUT_users_id by simp
  next
    case True
    show ?thesis
    proof (cases "DAList.lookup db i")
      case None
      then show ?thesis using inv PUT_users_id True by (simp add: update_user_def respond_def)
    next
      case (Some stored)
      from store_inv_lookup [OF inv Some] have st: "User_errors stored = []" "id' stored = i"
        by simp_all
      show ?thesis using inv PUT_users_id True Some st
        by (auto simp: update_user_def respond_def Let_def User_errors_Nil_iff
              UserUpdate_errors_def optional_def valid_name_def valid_phone_no_def valid_address_def
              split: option.splits if_splits intro!: store_inv_update)
    qed
  qed
next
  case (DELETE_users_id i)
  assume "store_inv db"
  then show ?thesis using DELETE_users_id
    by (auto simp: delete_user_def respond_def intro: store_inv_delete)
qed (auto simp: Let_def split: sum.splits)

lemma reachable_store_inv: "reachable lower db \<Longrightarrow> store_inv db"
  by (induction rule: reachable.induct) (auto intro: store_inv_empty app_preserves_store_inv)

subsection \<open>Create, read, update, delete\<close>

text \<open>
  C1: for every store and every record \<open>r\<close> that satisfies the field constraints and whose id
  is not a key of the store, creating \<open>r\<close> is answered 201, and a get by \<open>r\<close>'s id on the
  store that the create leaves is answered 200 with a record equal to \<open>r\<close> in all fields.
\<close>

theorem create_then_get:
  assumes "0 < id' r"
    and "1 \<le> length (User.name r)" and "length (User.name r) \<le> 100"
    and "10 \<le> length (User.phone_no r)" and "length (User.phone_no r) \<le> 15"
    and "1 \<le> length (User.address r)" and "length (User.address r) \<le> 200"
    and "\<not> contains_key db (id' r)"
  shows "fst (app lower (POST_users r) db) = Response 201 (Message ''User created successfully'') \<and>
         fst (app lower (GET_users_id (id' r)) (snd (app lower (POST_users r) db))) = Response 200 (UserObject r)"
proof -
  have v: "User_errors r = []" using assms by (simp add: User_errors_Nil_iff)
  then show ?thesis using assms(8)
    by (simp add: create_user_def respond_def get_user_by_id_def)
qed

theorem create_then_get_witness:
  "\<not> contains_key DAList.empty (id' john) \<and>
   fst (app lower_sample (POST_users john) DAList.empty) = Response 201 (Message ''User created successfully'') \<and>
   fst (app lower_sample (GET_users_id 1) (snd (app lower_sample (POST_users john) DAList.empty))) = Response 200 (UserObject john)"
  using create_then_get [where r = john and db = DAList.empty and lower = lower_sample]
  by (simp add: eval_defs)

text \<open>
  C2: for every store and every record \<open>r\<close> that satisfies the field constraints and whose id
  is already a key, creating \<open>r\<close> is answered 400 with the detail
  \<^verbatim>\<open>User with this ID already exists\<close>, and the store is the one before the call, so that
  the record under \<open>r\<close>'s id is what it was.
\<close>

theorem create_duplicate:
  assumes "0 < id' r"
    and "1 \<le> length (User.name r)" and "length (User.name r) \<le> 100"
    and "10 \<le> length (User.phone_no r)" and "length (User.phone_no r) \<le> 15"
    and "1 \<le> length (User.address r)" and "length (User.address r) \<le> 200"
    and "contains_key db (id' r)"
  shows "app lower (POST_users r) db = (Response 400 (Detail ''User with this ID already exists''), db)"
proof -
  have v: "User_errors r = []" using assms by (simp add: User_errors_Nil_iff)
  then show ?thesis using assms(8)
    by (simp add: create_user_def respond_def exception_response_def)
qed

theorem create_duplicate_witness:
  "contains_key one_user (id' (john\<lparr>name := str_of ''Impostor''\<rparr>)) \<and>
   app lower_sample (POST_users (john\<lparr>name := str_of ''Impostor''\<rparr>)) one_user =
     (Response 400 (Detail ''User with this ID already exists''), one_user) \<and>
   DAList.lookup one_user 1 = Some john"
  using create_duplicate
    [where r = "john\<lparr>name := str_of ''Impostor''\<rparr>" and db = one_user and lower = lower_sample]
  by (simp add: eval_defs)


text \<open>
  C3: when a record \<open>old\<close> is stored under \<open>i\<close> and an update of \<open>i\<close> succeeds (status 200),
  the record stored under \<open>i\<close> afterwards has, in each of name, phone number and address, the
  supplied value where one was supplied and the value of \<open>old\<close> where the field was omitted;
  its id is that of \<open>old\<close>; every other key maps to what it mapped to before; and the keys of
  the store and their order are unchanged.
\<close>

theorem update_changes_only_supplied_fields:
  assumes "DAList.lookup db i = Some old"
    and "status (fst (app lower (PUT_users_id i upd) db)) = 200"
  shows "\<exists>new. DAList.lookup (snd (app lower (PUT_users_id i upd) db)) i = Some new \<and>
           User.name new = (case UserUpdate.name upd of None \<Rightarrow> User.name old | Some v \<Rightarrow> v) \<and>
           User.phone_no new =
             (case UserUpdate.phone_no upd of None \<Rightarrow> User.phone_no old | Some v \<Rightarrow> v) \<and>
           User.address new =
             (case UserUpdate.address upd of None \<Rightarrow> User.address old | Some v \<Rightarrow> v) \<and>
           id' new = id' old \<and>
           (\<forall>k. k \<noteq> i \<longrightarrow>
              DAList.lookup (snd (app lower (PUT_users_id i upd) db)) k = DAList.lookup db k) \<and>
           dict_keys (snd (app lower (PUT_users_id i upd) db)) = dict_keys db"
proof -
  have ok: "UserUpdate_errors upd = []"
    using assms(2) by (auto split: if_splits)
  have "(i, old) \<in> set (DAList.impl_of db)"
    using assms(1) unfolding DAList.lookup.rep_eq by (rule map_of_SomeD)
  then have "i \<in> fst ` set (DAList.impl_of db)"
    by force
  then have keys: "dict_keys (DAList.update i v db) = dict_keys db" for v
    by (simp add: dict_keys_def DAList.update.rep_eq update_keys)
  show ?thesis using ok assms(1)
    by (simp add: update_user_def respond_def Let_def keys split: option.splits)
qed

theorem update_changes_only_supplied_fields_witness:
  "DAList.lookup one_user 1 = Some john \<and>
   status (fst (app lower_sample (PUT_users_id 1 jane_update) one_user)) = 200 \<and>
   DAList.lookup (snd (app lower_sample (PUT_users_id 1 jane_update) one_user)) 1 =
     Some \<lparr>id' = 1, name = str_of ''Jane Doe'', phone_no = str_of ''1234567890'',
            address = str_of ''123 Main St''\<rparr>"
  using update_changes_only_supplied_fields
    [where db = one_user and i = 1 and old = john and upd = jane_update and lower = lower_sample]
  by (simp add: eval_defs)

text \<open>
  C4: for every store and every id that is a key of it, the delete is answered 200, and a get
  by the same id on the store that the delete leaves is answered 404 with the detail
  \<^verbatim>\<open>User not found\<close>.
\<close>

theorem delete_then_get:
  assumes "contains_key db i"
  shows "fst (app lower (DELETE_users_id i) db) = Response 200 (Message ''User deleted successfully'') \<and>
         fst (app lower (GET_users_id i) (snd (app lower (DELETE_users_id i) db))) =
           Response 404 (Detail ''User not found'')"
  using assms
  by (simp add: delete_user_def respond_def get_user_by_id_def exception_response_def)

theorem delete_then_get_witness:
  "contains_key one_user 1 \<and>
   fst (app lower_sample (DELETE_users_id 1) one_user) = Response 200 (Message ''User deleted successfully'') \<and>
   fst (app lower_sample (GET_users_id 1) (snd (app lower_sample (DELETE_users_id 1) one_user))) =
     Response 404 (Detail ''User not found'')"
  using delete_then_get [where db = one_user and i = 1 and lower = lower_sample]
  by (simp add: eval_defs)

subsection \<open>Search by name\<close>

text \<open>
  What the search returns, in terms of the runtime's \<open>lower\<close>: on every store the program can
  be in and for every non-empty query, the answer is 200 with the stored records whose lowered
  name has the lowered query as a contiguous substring, each once, and the store is unchanged.
  Whether that is a case-insensitive match depends on \<open>lower\<close>.
\<close>

lemma search_by_lowered_substring:
  assumes "reachable lower db" and "q \<noteq> []"
  shows "\<exists>us. app lower (GET_users_search q) db = (Response 200 (UserList us), db) \<and>
           set us = {u \<in> ran (DAList.lookup db).
                      \<exists>pre suf. lower (User.name u) = pre @ lower q @ suf} \<and>
           distinct us"
proof -
  let ?us = "search_users_by_name lower q db"
  have inv: "store_inv db"
    using assms(1) by (rule reachable_store_inv)
  have sub: "set ?us \<subseteq> set (dict_values db)"
    by (auto simp: search_users_by_name_def)
  then have "list_all (\<lambda>u. User_errors u = []) ?us"
    using store_inv_values [OF inv] by (auto simp: list_all_iff)
  then have resp: "app lower (GET_users_search q) db = (Response 200 (UserList ?us), db)"
    using assms(2) by (cases q) simp_all
  have elems: "set ?us = {u \<in> ran (DAList.lookup db).
                       \<exists>pre suf. lower (User.name u) = pre @ lower q @ suf}"
    by (auto simp: search_users_by_name_def set_dict_values str_in_iff)
  have dist: "distinct ?us"
    using store_inv_distinct_values [OF inv] by (simp add: search_users_by_name_def)
  show ?thesis
    by (intro exI [of _ ?us] conjI) (fact resp, fact elems, fact dist)
qed

lemma search_finds_john:
  "app lower_sample (GET_users_search (str_of ''DOE'')) one_user =
     (Response 200 (UserList [john]), one_user)"
  by (simp add: eval_defs)

text \<open>
  C5 does not hold of the code. The claim, like the docstring of
  \<^verbatim>\<open>search_users_by_name\<close> (``case-insensitive partial match''), promises every stored
  record whose name contains the query up to case. Line 75 compares the two lowered strings,
  and \<^verbatim>\<open>str.lower()\<close> lowers the sigma that ends the query \<open>papas\<close> to a final sigma but the
  same sigma inside the name \<open>papastavrou\<close> to a medial one. So, for every \<open>lower\<close> that has the
  runtime's values on these two words: the store that holds only \<open>greek_user\<close> is one the program
  can be in, the name of that record begins with the query letter for letter, and yet the search by that query
  is answered 200 with the empty list.
\<close>

theorem search_misses_contained_query:
  assumes "lower papas = [960, 945, 960, 945, 962]"
    and "lower papastavrou = [960, 945, 960, 945, 963, 964, 945, 965, 961, 959, 965]"
  shows "reachable lower greek_store \<and>
         DAList.lookup greek_store 2 = Some greek_user \<and>
         papas \<noteq> [] \<and>
         (\<exists>suf. User.name greek_user = papas @ suf) \<and>
         app lower (GET_users_search papas) greek_store = (Response 200 (UserList []), greek_store)"
proof -
  have "snd (app lower (POST_users greek_user) DAList.empty) = greek_store"
    by (simp add: greek_user_def greek_store_def papastavrou_def str_of_def valid_defs
        respond_def create_user_def contains_key_def)
  moreover have "reachable lower (snd (app lower (POST_users greek_user) DAList.empty))"
    by (rule reachable.request [OF reachable.initial])
  ultimately have r: "reachable lower greek_store"
    by simp
  have l: "DAList.lookup greek_store 2 = Some greek_user"
    by (simp add: greek_store_def)
  have q: "papas \<noteq> []"
    by (simp add: papas_def)
  have "User.name greek_user = papas @ [932, 913, 933, 929, 927, 933]"
    by (simp add: greek_user_def papas_def papastavrou_def)
  then have c: "\<exists>suf. User.name greek_user = papas @ suf"
    by blast
  have "\<not> str_in (lower papas) (lower (User.name greek_user))"
    by (simp add: assms greek_user_def)
  then have "search_users_by_name lower papas greek_store = []"
    by (simp add: search_users_by_name_def dict_values_def greek_store_def
        DAList.update.rep_eq DAList.empty.rep_eq)
  then have a: "app lower (GET_users_search papas) greek_store =
                  (Response 200 (UserList []), greek_store)"
    using q by (cases papas) simp_all
  show ?thesis
    using r l q c a by blast
qed

theorem search_misses_contained_query_witness:
  "lower_sample papas = [960, 945, 960, 945, 962] \<and>
   lower_sample papastavrou = [960, 945, 960, 945, 963, 964, 945, 965, 961, 959, 965] \<and>
   DAList.lookup greek_store 2 = Some greek_user \<and>
   User.name greek_user = papas @ [932, 913, 933, 929, 927, 933] \<and>
   app lower_sample (GET_users_search papas) greek_store =
     (Response 200 (UserList []), greek_store)"
proof -
  have a: "lower_sample papas = [960, 945, 960, 945, 962]"
    by (simp add: lower_sample_def)
  have b: "lower_sample papastavrou = [960, 945, 960, 945, 963, 964, 945, 965, 961, 959, 965]"
    by (simp add: lower_sample_def papas_def papastavrou_def)
  have c: "User.name greek_user = papas @ [932, 913, 933, 929, 927, 933]"
    by (simp add: greek_user_def papas_def papastavrou_def)
  show ?thesis
    using search_misses_contained_query [OF a b] a b c by blast
qed

subsection \<open>Not found\<close>

lemma not_found_leaves_store:
  "status (fst (app lower req db)) = 404 \<Longrightarrow> snd (app lower req db) = db"
proof (cases req)
  case (POST_users user)
  assume "status (fst (app lower req db)) = 404"
  then show ?thesis using POST_users
    by (simp add: create_user_def respond_def exception_response_def split: if_splits)
next
  case (PUT_users_id i upd)
  assume "status (fst (app lower req db)) = 404"
  then show ?thesis using PUT_users_id
    by (cases "DAList.lookup db i")
       (simp_all add: update_user_def respond_def exception_response_def Let_def split: if_splits)
next
  case (DELETE_users_id i)
  assume "status (fst (app lower req db)) = 404"
  then show ?thesis using DELETE_users_id
    by (simp add: delete_user_def respond_def exception_response_def split: if_splits)
qed (simp_all add: Let_def split: sum.splits if_splits)

text \<open>
  C6, as stated, fails for an update: the request body is validated before
  \<^const>\<open>update_user\<close> runs, so an update of an absent id with an empty name is answered 422,
  not 404.
\<close>

theorem not_found_counterexample:
  "\<not> contains_key one_user 2 \<and>
   fst (app lower_sample (PUT_users_id 2 blank_name_update) one_user) = Response 422 (ValidationErrors [''name'']) \<and>
   fst (app lower_sample (PUT_users_id 2 blank_name_update) one_user) \<noteq> Response 404 (Detail ''User not found'')"
  by (simp add: eval_defs blank_name_update_def)

text \<open>
  C6, amended: for every store and every integer id, a get and a delete are answered 404 with
  the detail \<^verbatim>\<open>User not found\<close> if and only if the id is not a key of the store;
  \<^const>\<open>update_user\<close> raises that exception if and only if the id is not a key, and an update
  whose body passes schema validation is answered 404 under the same condition, while a body
  that fails it is answered 422 with the store unchanged, whether the id is a key or not; and
  whenever a request is answered 404, the store is unchanged.
\<close>

theorem not_found_iff_absent:
  "(fst (app lower (GET_users_id i) db) = Response 404 (Detail ''User not found'')
      \<longleftrightarrow> \<not> contains_key db i) \<and>
   (fst (update_user i upd db) = Inl (HTTPException 404 ''User not found'')
      \<longleftrightarrow> \<not> contains_key db i) \<and>
   (UserUpdate_errors upd = [] \<longrightarrow>
      (fst (app lower (PUT_users_id i upd) db) = Response 404 (Detail ''User not found'')
         \<longleftrightarrow> \<not> contains_key db i)) \<and>
   (fst (app lower (DELETE_users_id i) db) = Response 404 (Detail ''User not found'')
      \<longleftrightarrow> \<not> contains_key db i) \<and>
   (UserUpdate_errors upd \<noteq> [] \<longrightarrow>
      app lower (PUT_users_id i upd) db =
        (Response 422 (ValidationErrors (UserUpdate_errors upd)), db)) \<and>
   (status (fst (app lower req db)) = 404 \<longrightarrow> snd (app lower req db) = db)"
proof (intro conjI impI)
  show "fst (app lower (GET_users_id i) db) = Response 404 (Detail ''User not found'')
          \<longleftrightarrow> \<not> contains_key db i"
    by (cases "DAList.lookup db i")
       (simp_all add: get_user_by_id_def contains_key_def exception_response_def)
  show upd: "fst (update_user i upd db) = Inl (HTTPException 404 ''User not found'')
          \<longleftrightarrow> \<not> contains_key db i"
    by (cases "DAList.lookup db i") (simp_all add: update_user_def contains_key_def Let_def)
  show "fst (app lower (PUT_users_id i upd) db) = Response 404 (Detail ''User not found'')
          \<longleftrightarrow> \<not> contains_key db i" if "UserUpdate_errors upd = []"
    using that
    by (cases "DAList.lookup db i")
       (simp_all add: update_user_def contains_key_def Let_def respond_def exception_response_def)
  show "fst (app lower (DELETE_users_id i) db) = Response 404 (Detail ''User not found'')
          \<longleftrightarrow> \<not> contains_key db i"
    by (simp add: delete_user_def respond_def exception_response_def)
  show "app lower (PUT_users_id i upd) db =
          (Response 422 (ValidationErrors (UserUpdate_errors upd)), db)"
    if "UserUpdate_errors upd \<noteq> []"
    using that by simp
  show "snd (app lower req db) = db" if "status (fst (app lower req db)) = 404"
    using that by (rule not_found_leaves_store)
qed

theorem not_found_iff_absent_witness:
  "\<not> contains_key one_user 2 \<and> contains_key one_user 1 \<and> UserUpdate_errors jane_update = [] \<and>
   app lower_sample (GET_users_id 2) one_user = (Response 404 (Detail ''User not found''), one_user) \<and>
   app lower_sample (PUT_users_id 2 jane_update) one_user = (Response 404 (Detail ''User not found''), one_user) \<and>
   app lower_sample (DELETE_users_id 2) one_user = (Response 404 (Detail ''User not found''), one_user) \<and>
   fst (app lower_sample (GET_users_id 1) one_user) \<noteq> Response 404 (Detail ''User not found'') \<and>
   fst (app lower_sample (PUT_users_id 1 jane_update) one_user) \<noteq> Response 404 (Detail ''User not found'') \<and>
   fst (app lower_sample (DELETE_users_id 1) one_user) \<noteq> Response 404 (Detail ''User not found'')"
proof -
  have a: "\<not> contains_key one_user 2" "contains_key one_user 1"
    by (simp_all add: eval_defs)
  have v: "UserUpdate_errors jane_update = []"
    by (simp add: eval_defs)
  have s: "status (Response 404 (Detail ''User not found'')) = 404"
    by simp
  note t2 = not_found_iff_absent
    [where i = 2 and db = one_user and upd = jane_update and lower = lower_sample]
  note t1 = not_found_iff_absent
    [where i = 1 and db = one_user and upd = jane_update and lower = lower_sample]
  have g2: "fst (app lower_sample (GET_users_id 2) one_user) = Response 404 (Detail ''User not found'')"
    using t2 [where req = "GET_users_id 2"] a by blast
  have p2: "fst (app lower_sample (PUT_users_id 2 jane_update) one_user) = Response 404 (Detail ''User not found'')"
    using t2 [where req = "GET_users_id 2"] a v by blast
  have d2: "fst (app lower_sample (DELETE_users_id 2) one_user) = Response 404 (Detail ''User not found'')"
    using t2 [where req = "GET_users_id 2"] a by blast
  have g2': "snd (app lower_sample (GET_users_id 2) one_user) = one_user"
    using t2 [where req = "GET_users_id 2"] g2 s by simp
  have p2': "snd (app lower_sample (PUT_users_id 2 jane_update) one_user) = one_user"
    using t2 [where req = "PUT_users_id 2 jane_update"] p2 s by simp
  have d2': "snd (app lower_sample (DELETE_users_id 2) one_user) = one_user"
    using t2 [where req = "DELETE_users_id 2"] d2 s by simp
  have n1: "fst (app lower_sample (GET_users_id 1) one_user) \<noteq> Response 404 (Detail ''User not found'')"
      "fst (app lower_sample (PUT_users_id 1 jane_update) one_user) \<noteq> Response 404 (Detail ''User not found'')"
      "fst (app lower_sample (DELETE_users_id 1) one_user) \<noteq> Response 404 (Detail ''User not found'')"
    using t1 [where req = "GET_users_id 1"] a v by blast+
  show ?thesis
    using a v g2 g2' p2 p2' d2 d2' n1 by (simp add: prod_eq_iff)
qed


subsection \<open>Schema validation\<close>

lemma User_errors_not_Nil_iff:
  "User_errors u \<noteq> [] \<longleftrightarrow>
     id' u \<le> 0 \<or>
     length (User.name u) < 1 \<or> 100 < length (User.name u) \<or>
     length (User.phone_no u) < 10 \<or> 15 < length (User.phone_no u) \<or>
     length (User.address u) < 1 \<or> 200 < length (User.address u)"
  unfolding User_errors_Nil_iff by arith

text \<open>
  C7: a create request is answered 422 if and only if some field violates its constraint (the
  id is not positive, the name is empty or longer than 100, the phone number is shorter than
  10 or longer than 15, the address is empty or longer than 200); when it is, the response
  carries the violating fields and the store is unchanged, \<^const>\<open>create_user\<close> not having
  run. A request that satisfies every constraint is therefore never answered 422.
\<close>

theorem create_validation:
  "(status (fst (app lower (POST_users u) db)) = 422 \<longleftrightarrow>
      id' u \<le> 0 \<or>
      length (User.name u) < 1 \<or> 100 < length (User.name u) \<or>
      length (User.phone_no u) < 10 \<or> 15 < length (User.phone_no u) \<or>
      length (User.address u) < 1 \<or> 200 < length (User.address u)) \<and>
   (status (fst (app lower (POST_users u) db)) = 422 \<longrightarrow>
      app lower (POST_users u) db = (Response 422 (ValidationErrors (User_errors u)), db))"
proof (cases "User_errors u = []")
  case True
  then have "status (fst (app lower (POST_users u) db)) \<noteq> 422"
    by (simp add: create_user_def respond_def exception_response_def)
  then show ?thesis
    using True unfolding User_errors_not_Nil_iff [symmetric] by blast
next
  case False
  then have "app lower (POST_users u) db = (Response 422 (ValidationErrors (User_errors u)), db)"
    by simp
  moreover from this have "status (fst (app lower (POST_users u) db)) = 422"
    by simp
  ultimately show ?thesis
    using False unfolding User_errors_not_Nil_iff [symmetric] by blast
qed

theorem create_validation_witness:
  "status (fst (app lower_sample (POST_users (john\<lparr>phone_no := str_of ''12345''\<rparr>)) DAList.empty)) = 422 \<and>
   snd (app lower_sample (POST_users (john\<lparr>phone_no := str_of ''12345''\<rparr>)) DAList.empty) = DAList.empty \<and>
   status (fst (app lower_sample (POST_users john) DAList.empty)) \<noteq> 422"
proof -
  let ?bad = "john\<lparr>phone_no := str_of ''12345''\<rparr>"
  have short: "length (User.phone_no ?bad) < 10"
    by (simp add: str_of_def)
  have rejected: "status (fst (app lower_sample (POST_users ?bad) DAList.empty)) = 422"
    using create_validation [where u = ?bad and db = DAList.empty and lower = lower_sample] short by blast
  then have "app lower_sample (POST_users ?bad) DAList.empty =
               (Response 422 (ValidationErrors (User_errors ?bad)), DAList.empty)"
    using create_validation [where u = ?bad and db = DAList.empty and lower = lower_sample] by blast
  then have unchanged: "snd (app lower_sample (POST_users ?bad) DAList.empty) = DAList.empty"
    by simp
  have "\<not> (id' john \<le> 0 \<or>
      length (User.name john) < 1 \<or> 100 < length (User.name john) \<or>
      length (User.phone_no john) < 10 \<or> 15 < length (User.phone_no john) \<or>
      length (User.address john) < 1 \<or> 200 < length (User.address john))"
    by (simp add: john_def str_of_def)
  then have accepted: "status (fst (app lower_sample (POST_users john) DAList.empty)) \<noteq> 422"
    using create_validation [where u = john and db = DAList.empty and lower = lower_sample] by blast
  show ?thesis
    using rejected unchanged accepted by blast
qed

text \<open>
  C8, as stated, fails: \<^verbatim>\<open>get_user_by_id(id: int)\<close> declares no bound on its id, so a
  get by the id 0 passes validation and is looked up like any other id; the answer is 404,
  not 422.
\<close>

theorem get_non_positive_id_counterexample:
  "fst (app lower_sample (GET_users_id 0) one_user) = Response 404 (Detail ''User not found'') \<and>
   status (fst (app lower_sample (GET_users_id 0) one_user)) \<noteq> 422"
  by (simp add: eval_defs)

text \<open>
  C8, amended: a get whose id is zero or negative is treated as an ordinary lookup; on every
  store the program can be in, no record is stored under such an id, and the request is
  answered 404 with the detail \<^verbatim>\<open>User not found\<close>, the store unchanged.
\<close>

theorem get_non_positive_id:
  assumes "reachable lower db" and "i \<le> 0"
  shows "app lower (GET_users_id i) db = (Response 404 (Detail ''User not found''), db)"
proof -
  have inv: "store_inv db"
    using assms(1) by (rule reachable_store_inv)
  have "DAList.lookup db i = None"
  proof (cases "DAList.lookup db i")
    case (Some u)
    from store_inv_lookup [OF inv Some] have "0 < i"
      by (simp add: User_errors_Nil_iff)
    with assms(2) show ?thesis by simp
  qed simp
  then show ?thesis
    by (simp add: get_user_by_id_def exception_response_def)
qed

theorem get_non_positive_id_witness:
  "reachable lower_sample (snd (app lower_sample (POST_users john) DAList.empty)) \<and> (- 3 :: int) \<le> 0 \<and>
   app lower_sample (GET_users_id (- 3)) (snd (app lower_sample (POST_users john) DAList.empty)) =
     (Response 404 (Detail ''User not found''), snd (app lower_sample (POST_users john) DAList.empty))"
proof -
  have r: "reachable lower_sample (snd (app lower_sample (POST_users john) DAList.empty))"
    by (rule reachable.request [OF reachable.initial])
  have i: "(- 3 :: int) \<le> 0" by simp
  show ?thesis using get_non_positive_id [OF r i] r by simp
qed

subsection \<open>The store invariant\<close>

lemma store_inv_iff:
  "store_inv db \<longleftrightarrow> (\<forall>k u. DAList.lookup db k = Some u \<longrightarrow> User_errors u = [] \<and> id' u = k)"
proof
  assume "store_inv db"
  then show "\<forall>k u. DAList.lookup db k = Some u \<longrightarrow> User_errors u = [] \<and> id' u = k"
    using store_inv_lookup by blast
next
  assume r: "\<forall>k u. DAList.lookup db k = Some u \<longrightarrow> User_errors u = [] \<and> id' u = k"
  have "User_errors u = [] \<and> id' u = k" if "(k, u) \<in> set (DAList.impl_of db)" for k u
  proof -
    have "map_of (DAList.impl_of db) k = Some u"
      using that by simp
    then show ?thesis using r by (simp add: DAList.lookup.rep_eq)
  qed
  then show "store_inv db"
    by (auto simp: store_inv_def list_all_iff)
qed

text \<open>
  C9: in every store reached from the empty one by requests of any kind, the keys are distinct
  and every stored record has the id it is stored under and satisfies the field constraints;
  and the store left by one more request, whatever it is, satisfies the invariant again.
\<close>

theorem store_invariant:
  assumes "reachable lower db"
  shows "distinct (dict_keys db) \<and>
         store_inv (snd (app lower req db)) \<and>
         (\<forall>k u. DAList.lookup db k = Some u \<longrightarrow>
            id' u = k \<and> 0 < id' u \<and>
            1 \<le> length (User.name u) \<and> length (User.name u) \<le> 100 \<and>
            10 \<le> length (User.phone_no u) \<and> length (User.phone_no u) \<le> 15 \<and>
            1 \<le> length (User.address u) \<and> length (User.address u) \<le> 200)"
proof -
  have inv: "store_inv db"
    using assms by (rule reachable_store_inv)
  have d: "distinct (dict_keys db)"
    by (simp add: dict_keys_def)
  have s: "store_inv (snd (app lower req db))"
    using inv by (rule app_preserves_store_inv)
  show ?thesis
    using inv d s unfolding store_inv_iff [of db] User_errors_Nil_iff by blast
qed

theorem store_invariant_witness:
  "reachable lower_sample (snd (app lower_sample (PUT_users_id 1 jane_update) (snd (app lower_sample (POST_users john) DAList.empty)))) \<and>
   DAList.lookup (snd (app lower_sample (PUT_users_id 1 jane_update) (snd (app lower_sample (POST_users john) DAList.empty)))) 1
     = Some (john\<lparr>name := str_of ''Jane Doe''\<rparr>) \<and>
   id' (john\<lparr>name := str_of ''Jane Doe''\<rparr>) = 1 \<and>
   length (User.name (john\<lparr>name := str_of ''Jane Doe''\<rparr>)) \<le> 100"
proof -
  let ?db = "snd (app lower_sample (PUT_users_id 1 jane_update) (snd (app lower_sample (POST_users john) DAList.empty)))"
  have r: "reachable lower_sample ?db"
    by (intro reachable.request reachable.initial)
  have l: "DAList.lookup ?db 1 = Some (john\<lparr>name := str_of ''Jane Doe''\<rparr>)"
    by (simp add: eval_defs)
  show ?thesis
    using store_invariant [OF r, where req = GET_root] r l by blast
qed

subsection \<open>The empty update\<close>

text \<open>
  C10: for every store and every id that is a key of it, an update that supplies none of the
  three fields is answered 200 with the message \<^verbatim>\<open>User updated successfully\<close>, and the
  store, hence the record under the id, is what it was.
\<close>

theorem empty_update_is_noop:
  assumes "contains_key db i"
  shows "app lower (PUT_users_id i \<lparr>UserUpdate.name = None, phone_no = None, address = None\<rparr>) db =
           (Response 200 (Message ''User updated successfully''), db)"
proof -
  from assms obtain u where u: "DAList.lookup db i = Some u"
    by (auto simp: contains_key_def)
  then have "DAList.update i u db = db"
    by (rule update_same)
  then show ?thesis using u
    by (simp add: UserUpdate_errors_def optional_def update_user_def respond_def)
qed

theorem empty_update_is_noop_witness:
  "contains_key one_user 1 \<and>
   app lower_sample (PUT_users_id 1 empty_update) one_user =
     (Response 200 (Message ''User updated successfully''), one_user) \<and>
   DAList.lookup one_user 1 = Some john"
proof -
  have c: "contains_key one_user 1"
    by (simp add: eval_defs)
  have l: "DAList.lookup one_user 1 = Some john"
    by (simp add: eval_defs)
  show ?thesis
    using empty_update_is_noop [OF c] c l by (simp add: empty_update_def)
qed

end
